theory Spec2Isabelle
  imports Main "HOL-Library.Word"
begin

section \<open>Data model of \<^verbatim>\<open>src/core/tagreaderclient.cpp\<close>\<close>

text \<open>
  Objects live on a heap and are referred to by address, since a \<^verbatim>\<open>BroadcastReply\<close>
  shares its member replies with the worker pool that resolves them.
  \<^verbatim>\<open>QString\<close> and \<^verbatim>\<open>std::string\<close> are both byte strings here, so that
  \<^verbatim>\<open>DataCommaSizeFromQString\<close>, \<^verbatim>\<open>QStringFromStdString\<close> and \<^verbatim>\<open>toEncoded\<close> are the identity.
\<close>

type_synonym addr = nat
type_synonym thread_id = nat

text \<open>
  One entry of a network-statistics response. The byte count is kept as the
  \<^verbatim>\<open>qint64\<close> value that \<^verbatim>\<open>GetNetworkStatisticsBlocking\<close> stores in and adds to its
  \<^verbatim>\<open>QMap<QString, qint64>\<close>.
\<close>

record Entry =
  url :: string
  bytes_received :: "64 word"

text \<open>
  Modelled from the spec: the message type \<^verbatim>\<open>pb::tagreader::Message\<close> (its protobuf
  declaration lies outside \<^verbatim>\<open>tagreaderclient.cpp\<close>). The spec's Envelope carries exactly one
  tagged payload, one request kind paired with one response kind; \<open>'m\<close> is the protobuf
  song metadata. The fields of each kind are the ones \<^verbatim>\<open>tagreaderclient.cpp\<close> sets or reads.
\<close>

datatype 'm Message =
    Empty
  | ReadFileRequest string
  | ReadFileResponse 'm
  | SaveFileRequest string 'm
  | SaveFileResponse bool
  | SaveSongStatisticsToFileRequest string 'm
  | SaveSongStatisticsToFileResponse bool
  | SaveSongRatingToFileRequest string 'm
  | SaveSongRatingToFileResponse bool
  | IsMediaFileRequest string
  | IsMediaFileResponse bool
  | LoadEmbeddedArtRequest string
  | LoadEmbeddedArtResponse string
  | ReadCloudFileRequest string string "32 word" string string
  | ReadCloudFileResponse 'm
  | NetworkStatisticsRequest
  | NetworkStatisticsResponse "Entry list"

text \<open>
  Reading a response field of a message that does not carry it gives the protobuf
  default: \<open>False\<close>, the empty string, no entries, the default metadata.
\<close>

fun read_file_response_metadata :: "'m \<Rightarrow> 'm Message \<Rightarrow> 'm" where
  "read_file_response_metadata d (ReadFileResponse m) = m"
| "read_file_response_metadata d _ = d"

fun save_file_response_success :: "'m Message \<Rightarrow> bool" where
  "save_file_response_success (SaveFileResponse b) = b"
| "save_file_response_success _ = False"

fun save_song_statistics_to_file_response_success :: "'m Message \<Rightarrow> bool" where
  "save_song_statistics_to_file_response_success (SaveSongStatisticsToFileResponse b) = b"
| "save_song_statistics_to_file_response_success _ = False"

fun save_song_rating_to_file_response_success :: "'m Message \<Rightarrow> bool" where
  "save_song_rating_to_file_response_success (SaveSongRatingToFileResponse b) = b"
| "save_song_rating_to_file_response_success _ = False"

fun is_media_file_response_success :: "'m Message \<Rightarrow> bool" where
  "is_media_file_response_success (IsMediaFileResponse b) = b"
| "is_media_file_response_success _ = False"

fun load_embedded_art_response_data :: "'m Message \<Rightarrow> string" where
  "load_embedded_art_response_data (LoadEmbeddedArtResponse d) = d"
| "load_embedded_art_response_data _ = []"

fun network_statistics_response :: "'m Message \<Rightarrow> Entry list" where
  "network_statistics_response (NetworkStatisticsResponse es) = es"
| "network_statistics_response _ = []"

text \<open>
  Modelled from the spec: the Reply class \<^verbatim>\<open>TagReaderReply\<close> (declared outside
  \<^verbatim>\<open>tagreaderclient.cpp\<close>): the request snapshot and the status, Pending or
  Finished(success, response). \<^verbatim>\<open>is_finished()\<close>, \<^verbatim>\<open>is_successful()\<close> and \<^verbatim>\<open>message()\<close>
  read the three status fields.
\<close>

record 'm TagReaderReply =
  request_message :: "'m Message"
  reply_message :: "'m Message"
  is_finished :: bool
  is_successful :: bool

text \<open>
  \<^verbatim>\<open>class BroadcastReply : public TagReaderReply\<close> adds the member list \<^verbatim>\<open>replies_\<close>,
  read through \<^verbatim>\<open>replies()\<close>; the field bears the accessor's name.
\<close>

record 'm BroadcastReply = "'m TagReaderReply" +
  replies :: "addr list"

datatype error = AssertionFailed

datatype dispatch = SendMessage | BroadcastMessage

datatype signal = SigWorkerFailedToStart
datatype slot = SlotWorkerFailedToStart

datatype level = Error | Debug

datatype log_item =
    Words "string list"
  | RequestsByHost "string \<rightharpoonup> 32 word"
  | BytesReceivedByHost "string \<rightharpoonup> 64 word"

text \<open>
  The state of the host process as far as \<^verbatim>\<open>TagReaderClient\<close> touches it.
  \<^item> \<open>heap\<close>, \<open>bheap\<close>, \<open>next_addr\<close>: the replies and broadcast replies allocated so far;
  \<^item> \<open>executable_name\<close>, \<open>worker_count\<close>, \<open>connections\<close>, \<open>ready_workers\<close>,
    \<open>dispatched\<close>: the worker pool, with the calls made on its two send operations;
  \<^item> \<open>closures\<close>: the \<^verbatim>\<open>NewClosure\<close> connections (member reply, broadcast reply);
  \<^item> \<open>signals\<close>: the \<^verbatim>\<open>Finished(bool)\<close> signals emitted by broadcast replies;
  \<^item> \<open>resolution\<close>, \<open>schedule\<close>: the environment, that is how each reply will be resolved
    by its worker and the order in which pending replies resolve while a nested event
    loop runs;
  \<^item> \<open>deleted\<close>: the \<^verbatim>\<open>deleteLater()\<close> calls; \<open>logged\<close>: the \<^verbatim>\<open>qLog\<close> lines;
  \<^item> \<open>current_thread\<close>: \<^verbatim>\<open>QThread::currentThread()\<close>; \<open>thread\<close>: the client's \<^verbatim>\<open>thread()\<close>.
\<close>

record 'm world =
  heap :: "addr \<Rightarrow> 'm TagReaderReply"
  bheap :: "addr \<Rightarrow> 'm BroadcastReply"
  next_addr :: addr
  executable_name :: string
  worker_count :: int
  connections :: "(signal \<times> slot) list"
  ready_workers :: nat
  dispatched :: "(dispatch \<times> 'm Message \<times> addr list) list"
  closures :: "(addr \<times> addr) list"
  signals :: "(addr \<times> bool) list"
  resolution :: "addr \<Rightarrow> bool \<times> 'm Message"
  schedule :: "addr list"
  deleted :: "addr list"
  logged :: "(level \<times> log_item) list"
  current_thread :: thread_id
  thread :: thread_id

text \<open>
  What the client needs from classes that are not its own: \<^verbatim>\<open>Song\<close> (\<open>'s\<close>), the
  protobuf song metadata (\<open>'m\<close>), \<^verbatim>\<open>QImage\<close> (\<open>'i option\<close>, \<open>None\<close> the null image) and
  \<^verbatim>\<open>QUrl\<close>.
\<close>

record ('s, 'm, 'i) externals =
  ToProtobuf :: "'s \<Rightarrow> 'm"
  InitFromProtobuf :: "'m \<Rightarrow> 's \<Rightarrow> 's"
  toLocalFile :: "'s \<Rightarrow> string"
  default_metadata :: 'm
  loadFromData :: "string \<Rightarrow> 'i option"
  authority :: "string \<Rightarrow> string"

section \<open>The worker pool and the replies it hands out\<close>

definition new_reply :: "'m Message \<Rightarrow> 'm TagReaderReply" where
  "new_reply message =
     \<lparr>request_message = message, reply_message = Empty, is_finished = False, is_successful = False\<rparr>"

text \<open>
  Modelled from the spec: \<^verbatim>\<open>WorkerPool::SendMessageWithReply\<close> (the pool is defined
  outside \<^verbatim>\<open>tagreaderclient.cpp\<close>). It creates and registers the Reply synchronously and hands it to the
  caller; if no Worker is Ready the Reply resolves immediately as failed.
\<close>

definition SendMessageWithReply :: "'m Message \<Rightarrow> 'm world \<Rightarrow> addr \<times> 'm world" where
  "SendMessageWithReply message w =
     (let reply = next_addr w;
          r = (if ready_workers w = 0
               then (new_reply message)\<lparr>is_finished := True, is_successful := False\<rparr>
               else new_reply message)
      in (reply, w\<lparr>heap := (heap w)(reply := r),
                    next_addr := Suc reply,
                    dispatched := dispatched w @ [(SendMessage, message, [reply])]\<rparr>))"

text \<open>
  Modelled from the spec: \<^verbatim>\<open>WorkerPool::BroadcastMessageWithReply\<close>. It snapshots the
  Workers that are Ready, issues one send to each and returns the member Replies, one per
  Worker, in order.
\<close>

definition BroadcastMessageWithReply :: "'m Message \<Rightarrow> 'm world \<Rightarrow> addr list \<times> 'm world" where
  "BroadcastMessageWithReply message w =
     (let rs = [next_addr w ..< next_addr w + ready_workers w]
      in (rs, w\<lparr>heap := (\<lambda>a. if a \<in> set rs then new_reply message else heap w a),
                 next_addr := next_addr w + ready_workers w,
                 dispatched := dispatched w @ [(BroadcastMessage, message, rs)]\<rparr>))"

definition deleteLater :: "addr \<Rightarrow> 'm world \<Rightarrow> 'm world" where
  "deleteLater obj w = w\<lparr>deleted := deleted w @ [obj]\<rparr>"

definition qLog :: "level \<Rightarrow> log_item \<Rightarrow> 'm world \<Rightarrow> 'm world" where
  "qLog l item w = w\<lparr>logged := logged w @ [(l, item)]\<rparr>"

section \<open>\<^verbatim>\<open>BroadcastReply\<close>\<close>

definition count_if :: "('a \<Rightarrow> bool) \<Rightarrow> 'a list \<Rightarrow> nat" where
  "count_if p xs = length (filter p xs)"

text \<open>
  \<^verbatim>\<open>BroadcastReply::IsFinished\<close>. The counts are C++ \<^verbatim>\<open>int\<close>s that never exceed the length
  of a \<^verbatim>\<open>QList\<close>, itself an \<^verbatim>\<open>int\<close>: they cannot wrap and are natural numbers here.
\<close>

definition IsFinished :: "addr \<Rightarrow> 'm world \<Rightarrow> bool" where
  "IsFinished this w =
     (let finished = count_if (\<lambda>r. is_finished (heap w r)) (replies (bheap w this))
      in finished = length (replies (bheap w this)))"

text \<open>
  The lambda that the constructor connects to the \<^verbatim>\<open>Finished(bool)\<close> signal of each member.
  It captures \<^verbatim>\<open>this\<close> and reads \<^verbatim>\<open>replies_\<close> when it runs.
\<close>

definition closure :: "addr \<Rightarrow> 'm world \<Rightarrow> 'm world" where
  "closure this w =
     (if IsFinished this w
      then (let successes = count_if (\<lambda>r. is_successful (heap w r)) (replies (bheap w this))
            in w\<lparr>signals := signals w @ [(this, successes = length (replies (bheap w this)))]\<rparr>)
      else w)"

text \<open>
  The constructor: the base class is initialised from the request message, \<^verbatim>\<open>replies_\<close>
  from the argument, and one closure is connected per element of \<^verbatim>\<open>replies_\<close>.
\<close>

definition BroadcastReply_ctor :: "'m Message \<Rightarrow> addr list \<Rightarrow> 'm world \<Rightarrow> addr \<times> 'm world" where
  "BroadcastReply_ctor message rs w =
     (let this = next_addr w;
          w1 = w\<lparr>bheap := (bheap w)(this :=
                     \<lparr>request_message = message, reply_message = Empty,
                      is_finished = False, is_successful = False, replies = rs\<rparr>),
                 next_addr := Suc this\<rparr>
      in (this, fold (\<lambda>reply w. w\<lparr>closures := closures w @ [(reply, this)]\<rparr>)
                     (replies (bheap w1 this)) w1))"

text \<open>
  A reply emits \<^verbatim>\<open>Finished(bool)\<close>: the closures connected to it run, in the order of
  their connection.
\<close>

definition emit_Finished :: "addr \<Rightarrow> 'm world \<Rightarrow> 'm world" where
  "emit_Finished reply w =
     fold (\<lambda>c w. if fst c = reply then closure (snd c) w else w) (closures w) w"

text \<open>
  Modelled from the spec: the resolution of a Reply (Pending to Finished, exactly once, with
  the success flag and the response the worker gave), after which its completion
  notification fires.
\<close>

definition resolve :: "addr \<Rightarrow> 'm world \<Rightarrow> 'm world" where
  "resolve reply w =
     (if is_finished (heap w reply) then w
      else (let (success, message) = resolution w reply
            in emit_Finished reply
                 (w\<lparr>heap := (heap w)(reply := (heap w reply)
                      \<lparr>reply_message := message, is_finished := True, is_successful := success\<rparr>)\<rparr>)))"

text \<open>
  Modelled from the spec: the blocking wait of a plain Reply. The caller is suspended
  until the Reply is resolved and then learns whether it succeeded.
\<close>

definition WaitForFinished :: "addr \<Rightarrow> 'm world \<Rightarrow> bool \<times> 'm world" where
  "WaitForFinished reply w = (let w1 = resolve reply w in (is_successful (heap w1 reply), w1))"

definition emitted_by :: "addr \<Rightarrow> 'm world \<Rightarrow> bool list" where
  "emitted_by this w = map snd (filter (\<lambda>s. fst s = this) (signals w))"

text \<open>
  \<^verbatim>\<open>WaitForSignal(this, SIGNAL(Finished(bool)))\<close> (from \<^verbatim>\<open>core/waitforsignal.h\<close>) runs a nested
  event loop until the signal is emitted. While it runs, the pending replies resolve in
  the order of the schedule. \<open>None\<close>: every reply that will ever resolve has done so and
  the signal has not been emitted, so the call never returns.
\<close>

fun WaitForSignal_Finished :: "addr \<Rightarrow> addr list \<Rightarrow> 'm world \<Rightarrow> 'm world option" where
  "WaitForSignal_Finished this [] w = None"
| "WaitForSignal_Finished this (reply # rest) w =
     (let w1 = resolve reply (w\<lparr>schedule := rest\<rparr>)
      in if length (emitted_by this w) < length (emitted_by this w1) then Some w1
         else WaitForSignal_Finished this rest w1)"

text \<open>\<^verbatim>\<open>BroadcastReply::WaitForFinished\<close>, the override.\<close>

definition BroadcastReply_WaitForFinished :: "addr \<Rightarrow> 'm world \<Rightarrow> (bool \<times> 'm world) option" where
  "BroadcastReply_WaitForFinished this w =
     (case WaitForSignal_Finished this (schedule w) w of
        None \<Rightarrow> None
      | Some w1 \<Rightarrow> Some (IsFinished this w1, w1))"

section \<open>\<^verbatim>\<open>TagReaderClient\<close>\<close>

definition kWorkerExecutableName :: string where
  "kWorkerExecutableName = ''clementine-tagreader''"

text \<open>
  The constructor configures the pool and connects the pool's \<^verbatim>\<open>WorkerFailedToStart()\<close>
  signal to the slot of the same name. Its argument is \<^verbatim>\<open>QThread::idealThreadCount()\<close>.
\<close>

definition TagReaderClient_ctor :: "int \<Rightarrow> 'm world \<Rightarrow> 'm world" where
  "TagReaderClient_ctor idealThreadCount w =
     w\<lparr>executable_name := kWorkerExecutableName,
       worker_count := idealThreadCount,
       connections := connections w @ [(SigWorkerFailedToStart, SlotWorkerFailedToStart)]\<rparr>"

text \<open>The slot. \<^verbatim>\<open>qLog(Error)\<close> receives five items through \<^verbatim>\<open><<\<close>.\<close>

definition WorkerFailedToStart :: "'m world \<Rightarrow> 'm world" where
  "WorkerFailedToStart w =
     qLog Error (Words [''The'', kWorkerExecutableName, ''executable was not found'',
                        ''in the current directory or on the PATH.  Clementine will'',
                        ''not be able to read music file tags without it.'']) w"

fun run_slot :: "slot \<Rightarrow> 'm world \<Rightarrow> 'm world" where
  "run_slot SlotWorkerFailedToStart w = WorkerFailedToStart w"

text \<open>The pool emits a signal: the slots connected to it run.\<close>

definition emit_signal :: "signal \<Rightarrow> 'm world \<Rightarrow> 'm world" where
  "emit_signal sig w =
     fold (\<lambda>c w. if fst c = sig then run_slot (snd c) w else w) (connections w) w"

subsection \<open>The asynchronous forms\<close>

definition ReadFile :: "string \<Rightarrow> 'm world \<Rightarrow> addr \<times> 'm world" where
  "ReadFile filename w = SendMessageWithReply (ReadFileRequest filename) w"

definition SaveFile ::
  "('s, 'm, 'i) externals \<Rightarrow> string \<Rightarrow> 's \<Rightarrow> 'm world \<Rightarrow> addr \<times> 'm world" where
  "SaveFile x filename metadata w =
     SendMessageWithReply (SaveFileRequest filename (ToProtobuf x metadata)) w"

definition UpdateSongStatistics ::
  "('s, 'm, 'i) externals \<Rightarrow> 's \<Rightarrow> 'm world \<Rightarrow> addr \<times> 'm world" where
  "UpdateSongStatistics x metadata w =
     SendMessageWithReply
       (SaveSongStatisticsToFileRequest (toLocalFile x metadata) (ToProtobuf x metadata)) w"

definition UpdateSongRating ::
  "('s, 'm, 'i) externals \<Rightarrow> 's \<Rightarrow> 'm world \<Rightarrow> addr \<times> 'm world" where
  "UpdateSongRating x metadata w =
     SendMessageWithReply
       (SaveSongRatingToFileRequest (toLocalFile x metadata) (ToProtobuf x metadata)) w"

definition IsMediaFile :: "string \<Rightarrow> 'm world \<Rightarrow> addr \<times> 'm world" where
  "IsMediaFile filename w = SendMessageWithReply (IsMediaFileRequest filename) w"

definition LoadEmbeddedArt :: "string \<Rightarrow> 'm world \<Rightarrow> addr \<times> 'm world" where
  "LoadEmbeddedArt filename w = SendMessageWithReply (LoadEmbeddedArtRequest filename) w"

definition ReadCloudFile ::
  "string \<Rightarrow> string \<Rightarrow> 32 word \<Rightarrow> string \<Rightarrow> string \<Rightarrow> 'm world \<Rightarrow> addr \<times> 'm world" where
  "ReadCloudFile download_url title size' mime_type authorisation_header w =
     (let url_string = download_url
      in SendMessageWithReply
           (ReadCloudFileRequest url_string title size' mime_type authorisation_header) w)"

definition GetNetworkStatistics :: "'m world \<Rightarrow> addr \<times> 'm world" where
  "GetNetworkStatistics w =
     (let message = NetworkStatisticsRequest;
          (rs, w1) = BroadcastMessageWithReply message w
      in BroadcastReply_ctor message rs w1)"

subsection \<open>The statistics query, blocking\<close>

text \<open>
  One turn of the aggregation loop: \<^verbatim>\<open>requests_by_host\<close> is a \<^verbatim>\<open>QMap<QString, int>\<close>,
  \<^verbatim>\<open>bytes_received_by_host\<close> a \<^verbatim>\<open>QMap<QString, qint64>\<close>.
\<close>

definition aggregate_entry ::
  "(string \<Rightarrow> string) \<Rightarrow> Entry \<Rightarrow>
   (string \<rightharpoonup> 32 word) \<times> (string \<rightharpoonup> 64 word) \<Rightarrow>
   (string \<rightharpoonup> 32 word) \<times> (string \<rightharpoonup> 64 word)" where
  "aggregate_entry auth entry maps =
     (let requests_by_host = fst maps;
          bytes_received_by_host = snd maps;
          host = auth (url entry)
      in ((case requests_by_host host of
             Some n \<Rightarrow> requests_by_host(host \<mapsto> n + 1)
           | None \<Rightarrow> requests_by_host(host \<mapsto> 1)),
          (case bytes_received_by_host host of
             Some b \<Rightarrow> bytes_received_by_host(host \<mapsto> b + bytes_received entry)
           | None \<Rightarrow> bytes_received_by_host(host \<mapsto> bytes_received entry))))"

definition aggregate_stats ::
  "(string \<Rightarrow> string) \<Rightarrow> Entry list \<Rightarrow> (string \<rightharpoonup> 32 word) \<times> (string \<rightharpoonup> 64 word)" where
  "aggregate_stats auth response = fold (aggregate_entry auth) response (Map.empty, Map.empty)"

text \<open>
  \<^verbatim>\<open>response.MergeFrom(...)\<close> appends the entries of each member's response, in the order
  of the members.
\<close>

definition merge_responses :: "addr \<Rightarrow> 'm world \<Rightarrow> Entry list" where
  "merge_responses reply w =
     fold (\<lambda>r response. response @ network_statistics_response (reply_message (heap w r)))
          (replies (bheap w reply)) []"

definition GetNetworkStatisticsBlocking ::
  "('s, 'm, 'i) externals \<Rightarrow> 'm world \<Rightarrow> 'm world option" where
  "GetNetworkStatisticsBlocking x w =
     (let (reply, w1) = GetNetworkStatistics w
      in case BroadcastReply_WaitForFinished reply w1 of
           None \<Rightarrow> None
         | Some (_, w2) \<Rightarrow>
             (let w3 = deleteLater reply w2;
                  response = merge_responses reply w3;
                  maps = aggregate_stats (authority x) response
              in Some (qLog Debug (BytesReceivedByHost (snd maps))
                        (qLog Debug (RequestsByHost (fst maps)) w3))))"

subsection \<open>The blocking forms\<close>

text \<open>
  \<^verbatim>\<open>Q_ASSERT(QThread::currentThread() != thread())\<close> opens each of them; a failed assertion
  (in a build that checks assertions) is the error \<open>AssertionFailed\<close>, raised before
  anything is sent.
\<close>

definition ReadFileBlocking ::
  "('s, 'm, 'i) externals \<Rightarrow> string \<Rightarrow> 's \<Rightarrow> 'm world \<Rightarrow> error + 's \<times> 'm world" where
  "ReadFileBlocking x filename song w =
     (if \<not> current_thread w \<noteq> thread w then Inl AssertionFailed
      else (let (reply, w1) = ReadFile filename w;
                (ok, w2) = WaitForFinished reply w1;
                song1 = (if ok
                         then InitFromProtobuf x
                                (read_file_response_metadata (default_metadata x)
                                   (reply_message (heap w2 reply))) song
                         else song)
            in Inr (song1, deleteLater reply w2)))"

definition SaveFileBlocking ::
  "('s, 'm, 'i) externals \<Rightarrow> string \<Rightarrow> 's \<Rightarrow> 'm world \<Rightarrow> error + bool \<times> 'm world" where
  "SaveFileBlocking x filename metadata w =
     (if \<not> current_thread w \<noteq> thread w then Inl AssertionFailed
      else (let ret = False;
                (reply, w1) = SaveFile x filename metadata w;
                (ok, w2) = WaitForFinished reply w1;
                ret = (if ok then save_file_response_success (reply_message (heap w2 reply))
                       else ret)
            in Inr (ret, deleteLater reply w2)))"

definition UpdateSongStatisticsBlocking ::
  "('s, 'm, 'i) externals \<Rightarrow> 's \<Rightarrow> 'm world \<Rightarrow> error + bool \<times> 'm world" where
  "UpdateSongStatisticsBlocking x metadata w =
     (if \<not> current_thread w \<noteq> thread w then Inl AssertionFailed
      else (let ret = False;
                (reply, w1) = UpdateSongStatistics x metadata w;
                (ok, w2) = WaitForFinished reply w1;
                ret = (if ok
                       then save_song_statistics_to_file_response_success
                              (reply_message (heap w2 reply))
                       else ret)
            in Inr (ret, deleteLater reply w2)))"

definition UpdateSongRatingBlocking ::
  "('s, 'm, 'i) externals \<Rightarrow> 's \<Rightarrow> 'm world \<Rightarrow> error + bool \<times> 'm world" where
  "UpdateSongRatingBlocking x metadata w =
     (if \<not> current_thread w \<noteq> thread w then Inl AssertionFailed
      else (let ret = False;
                (reply, w1) = UpdateSongRating x metadata w;
                (ok, w2) = WaitForFinished reply w1;
                ret = (if ok
                       then save_song_rating_to_file_response_success
                              (reply_message (heap w2 reply))
                       else ret)
            in Inr (ret, deleteLater reply w2)))"

definition IsMediaFileBlocking :: "string \<Rightarrow> 'm world \<Rightarrow> error + bool \<times> 'm world" where
  "IsMediaFileBlocking filename w =
     (if \<not> current_thread w \<noteq> thread w then Inl AssertionFailed
      else (let ret = False;
                (reply, w1) = IsMediaFile filename w;
                (ok, w2) = WaitForFinished reply w1;
                ret = (if ok then is_media_file_response_success (reply_message (heap w2 reply))
                       else ret)
            in Inr (ret, deleteLater reply w2)))"

text \<open>\<^verbatim>\<open>QImage ret;\<close> is the null image; \<^verbatim>\<open>loadFromData\<close> replaces it.\<close>

definition LoadEmbeddedArtBlocking ::
  "('s, 'm, 'i) externals \<Rightarrow> string \<Rightarrow> 'm world \<Rightarrow> error + 'i option \<times> 'm world" where
  "LoadEmbeddedArtBlocking x filename w =
     (if \<not> current_thread w \<noteq> thread w then Inl AssertionFailed
      else (let ret = None;
                (reply, w1) = LoadEmbeddedArt filename w;
                (ok, w2) = WaitForFinished reply w1;
                ret = (if ok
                       then (let data_str = load_embedded_art_response_data
                                              (reply_message (heap w2 reply))
                             in loadFromData x data_str)
                       else ret)
            in Inr (ret, deleteLater reply w2)))"

section \<open>Notions used to state the properties\<close>

definition all_finished :: "addr \<Rightarrow> 'm world \<Rightarrow> bool" where
  "all_finished this w = list_all (\<lambda>r. is_finished (heap w r)) (replies (bheap w this))"

definition all_successful :: "addr \<Rightarrow> 'm world \<Rightarrow> bool" where
  "all_successful this w = list_all (\<lambda>r. is_successful (heap w r)) (replies (bheap w this))"

text \<open>The replies whose \<^verbatim>\<open>Finished(bool)\<close> signal a broadcast reply's closures are connected to.\<close>

definition connected :: "addr \<Rightarrow> 'm world \<Rightarrow> addr list" where
  "connected this w = map fst (filter (\<lambda>c. snd c = this) (closures w))"

definition run_closures :: "(addr \<times> addr) list \<Rightarrow> addr \<Rightarrow> 'm world \<Rightarrow> 'm world" where
  "run_closures cs reply w = fold (\<lambda>c w. if fst c = reply then closure (snd c) w else w) cs w"

text \<open>What the wait of a blocking form reports, for a given asynchronous form.\<close>

definition wait_reports :: "('m world \<Rightarrow> addr \<times> 'm world) \<Rightarrow> 'm world \<Rightarrow> bool" where
  "wait_reports async w = fst (WaitForFinished (fst (async w)) (snd (async w)))"

text \<open>
  The spec's blocking form, in its words: it asserts that it is not called from the
  primary scheduling context, issues the async form, waits, extracts the typed result
  from the reply's message, and releases the reply.
\<close>

definition blocking_form ::
  "('m world \<Rightarrow> addr \<times> 'm world) \<Rightarrow> ('m Message \<Rightarrow> 'r) \<Rightarrow> 'r \<Rightarrow> 'm world \<Rightarrow> error + 'r \<times> 'm world" where
  "blocking_form async extract dflt w =
     (if current_thread w = thread w then Inl AssertionFailed
      else (case async w of (reply, w1) \<Rightarrow>
              (case WaitForFinished reply w1 of (ok, w2) \<Rightarrow>
                 Inr (if ok then extract (reply_message (heap w2 reply)) else dflt,
                      deleteLater reply w2))))"

text \<open>The entries whose URL has the authority \<open>h\<close>.\<close>

definition entries_with :: "(string \<Rightarrow> string) \<Rightarrow> string \<Rightarrow> Entry list \<Rightarrow> Entry list" where
  "entries_with auth h es = filter (\<lambda>e. auth (url e) = h) es"

text \<open>
  The spec's merge of the member responses: the entries of the members' network-statistics
  responses, in the order of the members.
\<close>

definition member_entries :: "addr \<Rightarrow> 'm world \<Rightarrow> Entry list" where
  "member_entries this w =
     concat (map (\<lambda>r. network_statistics_response (reply_message (heap w r)))
                 (replies (bheap w this)))"

text \<open>The message of the reply of a blocking form, once the wait is over.\<close>

definition awaited_message :: "('m world \<Rightarrow> addr \<times> 'm world) \<Rightarrow> 'm world \<Rightarrow> 'm Message" where
  "awaited_message async w =
     reply_message (heap (snd (WaitForFinished (fst (async w)) (snd (async w)))) (fst (async w)))"

text \<open>
  The two maps that \<^verbatim>\<open>GetNetworkStatisticsBlocking\<close> logs, read at a host name, when
  these are the only two lines logged.
\<close>

definition logged_requests :: "'m world option \<Rightarrow> string \<Rightarrow> 32 word option" where
  "logged_requests r h =
     (case r of None \<Rightarrow> None
      | Some w \<Rightarrow> (case logged w of
           [(Debug, RequestsByHost m), (Debug, BytesReceivedByHost b)] \<Rightarrow> m h
         | _ \<Rightarrow> None))"

definition logged_bytes :: "'m world option \<Rightarrow> string \<Rightarrow> 64 word option" where
  "logged_bytes r h =
     (case r of None \<Rightarrow> None
      | Some w \<Rightarrow> (case logged w of
           [(Debug, RequestsByHost m), (Debug, BytesReceivedByHost b)] \<Rightarrow> b h
         | _ \<Rightarrow> None))"

text \<open>Every closure connected so far belongs to a broadcast reply that exists.\<close>

definition wf_closures :: "'m world \<Rightarrow> bool" where
  "wf_closures w = list_all (\<lambda>c. snd c < next_addr w) (closures w)"

text \<open>
  What can happen in the host once a broadcast reply exists: a request is sent, the
  statistics are queried, a reply resolves, a broadcast reply is waited for, an object is
  released, and (modelled from the spec) one more Worker of the pool becomes Ready.
  A wait that never returns ends the run.
\<close>

datatype 'm operation =
    OpSend "'m Message"
  | OpGetNetworkStatistics
  | OpResolve addr
  | OpWait addr
  | OpDeleteLater addr
  | OpWorkerJoins

fun apply_op :: "'m operation \<Rightarrow> 'm world \<Rightarrow> 'm world option" where
  "apply_op (OpSend message) w = Some (snd (SendMessageWithReply message w))"
| "apply_op OpGetNetworkStatistics w = Some (snd (GetNetworkStatistics w))"
| "apply_op (OpResolve reply) w = Some (resolve reply w)"
| "apply_op (OpWait this) w = map_option snd (BroadcastReply_WaitForFinished this w)"
| "apply_op (OpDeleteLater obj) w = Some (deleteLater obj w)"
| "apply_op OpWorkerJoins w = Some (w\<lparr>ready_workers := Suc (ready_workers w)\<rparr>)"

fun run :: "'m operation list \<Rightarrow> 'm world \<Rightarrow> 'm world option" where
  "run [] w = Some w"
| "run (op # ops) w = (case apply_op op w of None \<Rightarrow> None | Some w1 \<Rightarrow> run ops w1)"

subsection \<open>Concrete hosts\<close>

text \<open>
  \<^verbatim>\<open>QUrl::authority()\<close> for a URL with a scheme: what follows \<^verbatim>\<open>scheme://\<close> up to the next
  \<^verbatim>\<open>/\<close>, \<^verbatim>\<open>?\<close> or \<^verbatim>\<open>#\<close>.
\<close>

definition url_authority :: "string \<Rightarrow> string" where
  "url_authority u =
     (case dropWhile (\<lambda>c. c \<noteq> CHR '':'') u of
        c1 # c2 # c3 # rest \<Rightarrow>
          if c2 = CHR ''/'' \<and> c3 = CHR ''/''
          then takeWhile (\<lambda>c. c \<noteq> CHR ''/'' \<and> c \<noteq> CHR ''?'' \<and> c \<noteq> CHR ''#'') rest
          else []
      | _ \<Rightarrow> [])"

text \<open>Songs, metadata and images that are plain strings.\<close>

definition plain :: "(string, string, string) externals" where
  "plain = \<lparr>ToProtobuf = (\<lambda>s. s), InitFromProtobuf = (\<lambda>m s. m), toLocalFile = (\<lambda>s. s),
            default_metadata = [],
            loadFromData = (\<lambda>d. if d = [] then None else Some d),
            authority = url_authority\<rparr>"

text \<open>
  A host that has sent nothing yet: \<open>n\<close> Ready workers, the environment \<open>res\<close> and
  \<open>sched\<close>, the calling thread \<open>cur\<close>; the client lives in thread 0.
\<close>

definition host ::
  "nat \<Rightarrow> (addr \<Rightarrow> bool \<times> 'm Message) \<Rightarrow> addr list \<Rightarrow> thread_id \<Rightarrow> 'm world" where
  "host n res sched cur =
     \<lparr>heap = (\<lambda>_. new_reply Empty),
      bheap = (\<lambda>_. \<lparr>request_message = Empty, reply_message = Empty,
                     is_finished = False, is_successful = False, replies = []\<rparr>),
      next_addr = 0, executable_name = [], worker_count = 0, connections = [],
      ready_workers = n, dispatched = [], closures = [], signals = [],
      resolution = res, schedule = sched, deleted = [], logged = [],
      current_thread = cur, thread = 0\<rparr>"

text \<open>
  Three workers, a statistics broadcast (members 0, 1, 2, broadcast reply 3); members 0
  and 1 have resolved, member 1 as failed.
\<close>

definition two_of_three :: "string world" where
  "two_of_three =
     resolve 1 (resolve 0 (snd (GetNetworkStatistics
       (host 3 (\<lambda>a. (a \<noteq> 1, NetworkStatisticsResponse [])) [] 1))))"

definition example_entries :: "Entry list" where
  "example_entries =
     [\<lparr>url = ''http://a.com/x'', bytes_received = 100\<rparr>,
      \<lparr>url = ''http://a.com/y'', bytes_received = 50\<rparr>,
      \<lparr>url = ''http://b.com/z'', bytes_received = 10\<rparr>]"

text \<open>
  Two workers that answer the statistics query with the entries of the example, one entry
  from the first and two from the second; the second resolves first.
\<close>

definition stats_host :: "string world" where
  "stats_host =
     host 2 (\<lambda>a. if a = 0 then (True, NetworkStatisticsResponse (take 1 example_entries))
                 else (True, NetworkStatisticsResponse (drop 1 example_entries)))
          [1, 0] 1"

text \<open>One worker that resolves every reply with the given outcome and message.\<close>

definition answering :: "bool \<Rightarrow> string Message \<Rightarrow> thread_id \<Rightarrow> string world" where
  "answering ok message cur = host 1 (\<lambda>a. (ok, message)) [0] cur"

text \<open>
  A run in which, after a broadcast reply over the members 0 and 1 was made (at address
  2), a third Worker joins, another request and another statistics query are issued,
  and the broadcast reply is waited for.
\<close>

definition late_joiner_run :: "string operation list" where
  "late_joiner_run =
     [OpWorkerJoins, OpSend (IsMediaFileRequest ''f''), OpResolve 1, OpGetNetworkStatistics,
      OpWait 2, OpDeleteLater 3]"

section \<open>Lemmas about \<^verbatim>\<open>BroadcastReply\<close>\<close>

lemma count_if_all: "(count_if p xs = length xs) = list_all p xs"
proof (induction xs)
  case Nil
  show ?case by (simp add: count_if_def)
next
  case (Cons x xs)
  show ?case
  proof (cases "p x")
    case True
    with Cons show ?thesis by (simp add: count_if_def)
  next
    case False
    have "length (filter p xs) \<le> length xs" by simp
    then have "length (filter p xs) \<noteq> Suc (length xs)" by arith
    with False show ?thesis by (simp add: count_if_def)
  qed
qed

lemma IsFinished_all: "IsFinished this w = all_finished this w"
  by (simp add: IsFinished_def all_finished_def count_if_all)

lemma closure_eq:
  "closure this w =
     (if all_finished this w then w\<lparr>signals := signals w @ [(this, all_successful this w)]\<rparr> else w)"
  by (simp add: closure_def IsFinished_all all_successful_def count_if_all)

lemma run_closures_signals:
  "run_closures cs reply w =
     w\<lparr>signals := signals w @
         map (\<lambda>c. (snd c, all_successful (snd c) w))
             (filter (\<lambda>c. fst c = reply \<and> all_finished (snd c) w) cs)\<rparr>"
proof (induction cs arbitrary: w)
  case Nil
  show ?case by (simp add: run_closures_def)
next
  case (Cons c cs)
  have step: "run_closures (c # cs) reply w =
      run_closures cs reply (if fst c = reply then closure (snd c) w else w)"
    by (simp add: run_closures_def)
  show ?case
    unfolding step
    by (simp add: Cons.IH closure_eq all_finished_def all_successful_def)
qed

lemma emit_Finished_signals:
  "emit_Finished reply w =
     w\<lparr>signals := signals w @
         map (\<lambda>c. (snd c, all_successful (snd c) w))
             (filter (\<lambda>c. fst c = reply \<and> all_finished (snd c) w) (closures w))\<rparr>"
  using run_closures_signals [of "closures w" reply w]
  by (simp add: emit_Finished_def run_closures_def)

lemma emitted_by_emit_Finished:
  "emitted_by this (emit_Finished reply w) =
     emitted_by this w @
       (if all_finished this w
        then replicate (count_list (connected this w) reply) (all_successful this w) else [])"
proof -
  have "map snd (filter (\<lambda>s. fst s = this)
          (map (\<lambda>c. (snd c, all_successful (snd c) w))
               (filter (\<lambda>c. fst c = reply \<and> all_finished (snd c) w) cs))) =
        (if all_finished this w
         then replicate (count_list (map fst (filter (\<lambda>c. snd c = this) cs)) reply)
                (all_successful this w)
         else [])" for cs
    by (induction cs) auto
  then show ?thesis
    by (simp add: emit_Finished_signals emitted_by_def connected_def)
qed

lemma count_list_distinct:
  "distinct xs \<Longrightarrow> count_list xs x = (if x \<in> set xs then 1 else 0)"
  by (induction xs) auto

text \<open>What a resolution leaves alone.\<close>

lemma resolve_frame:
  "bheap (resolve reply w) = bheap w"
  "closures (resolve reply w) = closures w"
  "next_addr (resolve reply w) = next_addr w"
  "logged (resolve reply w) = logged w"
  "deleted (resolve reply w) = deleted w"
  "dispatched (resolve reply w) = dispatched w"
  "schedule (resolve reply w) = schedule w"
  "resolution (resolve reply w) = resolution w"
  by (simp_all add: resolve_def emit_Finished_signals split: prod.split)

lemma connected_resolve: "connected this (resolve reply w) = connected this w"
  by (simp add: connected_def resolve_frame)

lemma emitted_by_resolve_unconnected:
  assumes "reply \<notin> set (connected this w)"
  shows "emitted_by this (resolve reply w) = emitted_by this w"
proof (cases "is_finished (heap w reply)")
  case True
  then show ?thesis by (simp add: resolve_def)
next
  case False
  obtain success message where res: "resolution w reply = (success, message)"
    by (cases "resolution w reply")
  define w1 where "w1 = w\<lparr>heap := (heap w)(reply := (heap w reply)
      \<lparr>reply_message := message, is_finished := True, is_successful := success\<rparr>)\<rparr>"
  have r: "resolve reply w = emit_Finished reply w1"
    using False res by (simp add: resolve_def w1_def)
  have same: "connected this w1 = connected this w" "emitted_by this w1 = emitted_by this w"
    by (simp_all add: w1_def connected_def emitted_by_def)
  from assms have "count_list (connected this w) reply = 0"
    by (simp add: count_list_0_iff)
  then show ?thesis
    by (simp add: r emitted_by_emit_Finished same)
qed

text \<open>The constructor connects the closures to exactly the members it was given.\<close>

lemma fold_connect:
  "fold (\<lambda>reply w. w\<lparr>closures := closures w @ [(reply, this)]\<rparr>) rs w =
     w\<lparr>closures := closures w @ map (\<lambda>r. (r, this)) rs\<rparr>"
  by (induction rs arbitrary: w) simp_all

lemma BroadcastReply_ctor_eq:
  "BroadcastReply_ctor message rs w =
     (next_addr w,
      w\<lparr>bheap := (bheap w)(next_addr w :=
            \<lparr>request_message = message, reply_message = Empty,
             is_finished = False, is_successful = False, replies = rs\<rparr>),
        next_addr := Suc (next_addr w),
        closures := closures w @ map (\<lambda>r. (r, next_addr w)) rs\<rparr>)"
  by (simp add: BroadcastReply_ctor_def Let_def fold_connect)

lemma BroadcastReply_ctor_connected:
  assumes "\<forall>c \<in> set (closures w). snd c < next_addr w"
  shows "connected (fst (BroadcastReply_ctor message rs w)) (snd (BroadcastReply_ctor message rs w)) = rs"
    and "replies (bheap (snd (BroadcastReply_ctor message rs w)) (fst (BroadcastReply_ctor message rs w))) = rs"
proof -
  have "filter (\<lambda>c. snd c = next_addr w) (closures w) = []"
    using assms by (auto simp: filter_empty_conv)
  then show "connected (fst (BroadcastReply_ctor message rs w))
      (snd (BroadcastReply_ctor message rs w)) = rs"
    by (simp add: BroadcastReply_ctor_eq connected_def filter_map o_def)
  show "replies (bheap (snd (BroadcastReply_ctor message rs w))
      (fst (BroadcastReply_ctor message rs w))) = rs"
    by (simp add: BroadcastReply_ctor_eq)
qed

lemma GetNetworkStatistics_eq:
  "GetNetworkStatistics w =
     BroadcastReply_ctor NetworkStatisticsRequest
       (fst (BroadcastMessageWithReply NetworkStatisticsRequest w))
       (snd (BroadcastMessageWithReply NetworkStatisticsRequest w))"
  by (simp add: GetNetworkStatistics_def Let_def case_prod_beta)

text \<open>
  C1. When a pending reply resolves, a broadcast reply whose closures are connected to
  its members, all different, emits \<^verbatim>\<open>Finished(bool)\<close> exactly if the reply is one of its
  members and, with this resolution, all of its members are finished; the value it emits
  is the conjunction of the members' success flags. In every other case it emits nothing.
\<close>

theorem BroadcastReply_Finished_iff_all_members:
  assumes wired: "connected this w = replies (bheap w this)"
    and members: "distinct (replies (bheap w this))"
    and pending: "\<not> is_finished (heap w reply)"
  shows "emitted_by this (resolve reply w) =
           emitted_by this w @
             (if reply \<in> set (replies (bheap w this)) \<and>
                 (\<forall>r \<in> set (replies (bheap w this)). is_finished (heap (resolve reply w) r))
              then [\<forall>r \<in> set (replies (bheap w this)). is_successful (heap (resolve reply w) r)]
              else [])"
proof -
  obtain success message where res: "resolution w reply = (success, message)"
    by (cases "resolution w reply")
  define w1 where "w1 = w\<lparr>heap := (heap w)(reply := (heap w reply)
      \<lparr>reply_message := message, is_finished := True, is_successful := success\<rparr>)\<rparr>"
  have r: "resolve reply w = emit_Finished reply w1"
    using pending res by (simp add: resolve_def w1_def)
  have h: "heap (emit_Finished reply w1) = heap w1"
    by (simp add: emit_Finished_signals)
  have same: "bheap w1 = bheap w" "connected this w1 = connected this w"
    "emitted_by this w1 = emitted_by this w"
    by (simp_all add: w1_def connected_def emitted_by_def)
  have cnt: "count_list (replies (bheap w this)) reply =
      (if reply \<in> set (replies (bheap w this)) then 1 else 0)"
    using members by (rule count_list_distinct)
  show ?thesis
    unfolding r emitted_by_emit_Finished h same wired cnt
    by (simp add: all_finished_def all_successful_def same list_all_iff)
qed

theorem BroadcastReply_Finished_iff_all_members_witness:
  "connected 3 two_of_three = replies (bheap two_of_three 3) \<and>
   distinct (replies (bheap two_of_three 3)) \<and>
   \<not> is_finished (heap two_of_three 2) \<and>
   replies (bheap two_of_three 3) = [0, 1, 2] \<and>
   emitted_by 3 two_of_three = [] \<and>
   map (\<lambda>r. is_successful (heap (resolve 2 two_of_three) r)) [0, 1, 2] = [True, False, True] \<and>
   emitted_by 3 (resolve 2 two_of_three) = [False]"
proof -
  have a: "connected 3 two_of_three = replies (bheap two_of_three 3)" by code_simp
  have b: "distinct (replies (bheap two_of_three 3))" by code_simp
  have c: "\<not> is_finished (heap two_of_three 2)" by code_simp
  have d: "replies (bheap two_of_three 3) = [0, 1, 2]" by code_simp
  have e: "emitted_by 3 two_of_three = []" by code_simp
  have f: "map (\<lambda>r. is_successful (heap (resolve 2 two_of_three) r)) [0, 1, 2] = [True, False, True]"
    by code_simp
  have g: "map (\<lambda>r. is_finished (heap (resolve 2 two_of_three) r)) [0, 1, 2] = [True, True, True]"
    by code_simp
  from BroadcastReply_Finished_iff_all_members [OF a b c] f g
  have "emitted_by 3 (resolve 2 two_of_three) = [False]"
    by (simp add: d e)
  with a b c d e f show ?thesis by simp
qed

lemma WaitForSignal_Finished_unconnected:
  "connected this w = [] \<Longrightarrow> WaitForSignal_Finished this sched w = None"
proof (induction sched arbitrary: w)
  case Nil
  show ?case by simp
next
  case (Cons reply rest)
  let ?w0 = "w\<lparr>schedule := rest\<rparr>"
  have c0: "connected this ?w0 = []"
    using Cons.prems by (simp add: connected_def)
  have e0: "emitted_by this ?w0 = emitted_by this w"
    by (simp add: emitted_by_def)
  have "emitted_by this (resolve reply ?w0) = emitted_by this ?w0"
    by (rule emitted_by_resolve_unconnected) (simp add: c0)
  moreover have "connected this (resolve reply ?w0) = []"
    by (simp add: connected_resolve c0)
  ultimately show ?case
    by (simp add: Let_def e0 Cons.IH)
qed

text \<open>
  C3. A statistics broadcast on a pool without a Ready worker has no member.
  \<^verbatim>\<open>IsFinished()\<close> holds of it (0 = 0), but the constructor connected no closure, so
  \<^verbatim>\<open>Finished(bool)\<close> is never emitted: whatever the environment does,
  \<^verbatim>\<open>WaitForFinished()\<close> does not return, and neither does
  \<^verbatim>\<open>GetNetworkStatisticsBlocking()\<close>.
\<close>

theorem empty_BroadcastReply_never_returns:
  "IsFinished (fst (GetNetworkStatistics (host 0 res sched cur)))
              (snd (GetNetworkStatistics (host 0 res sched cur))) \<and>
   BroadcastReply_WaitForFinished (fst (GetNetworkStatistics (host 0 res sched cur)))
              (snd (GetNetworkStatistics (host 0 res sched cur))) = None \<and>
   GetNetworkStatisticsBlocking x (host 0 res sched cur) = None"
proof -
  let ?g = "GetNetworkStatistics (host 0 res sched cur)"
  have c: "connected (fst ?g) (snd ?g) = []"
    by (simp add: GetNetworkStatistics_def BroadcastMessageWithReply_def BroadcastReply_ctor_def
        host_def connected_def)
  have f: "IsFinished (fst ?g) (snd ?g)"
    by (simp add: GetNetworkStatistics_def BroadcastMessageWithReply_def BroadcastReply_ctor_def
        host_def IsFinished_def count_if_def)
  have n: "BroadcastReply_WaitForFinished (fst ?g) (snd ?g) = None"
    by (simp add: BroadcastReply_WaitForFinished_def WaitForSignal_Finished_unconnected [OF c])
  have "GetNetworkStatisticsBlocking x (host 0 res sched cur) = None"
    by (simp add: GetNetworkStatisticsBlocking_def case_prod_beta n)
  with f n show ?thesis by simp
qed

section \<open>The member list of a broadcast reply\<close>

lemma WaitForSignal_Finished_frame:
  "WaitForSignal_Finished this sched w = Some w1 \<Longrightarrow>
   bheap w1 = bheap w \<and> next_addr w1 = next_addr w"
proof (induction sched arbitrary: w)
  case Nil
  then show ?case by simp
next
  case (Cons reply rest)
  let ?w0 = "resolve reply (w\<lparr>schedule := rest\<rparr>)"
  have f: "bheap ?w0 = bheap w" "next_addr ?w0 = next_addr w"
    by (simp_all add: resolve_frame)
  show ?case
  proof (cases "length (emitted_by this w) < length (emitted_by this ?w0)")
    case True
    with Cons.prems have "w1 = ?w0" by (simp add: Let_def)
    with f show ?thesis by simp
  next
    case False
    with Cons.prems have "WaitForSignal_Finished this rest ?w0 = Some w1"
      by (simp add: Let_def)
    from Cons.IH [OF this] f show ?thesis by simp
  qed
qed

lemma apply_op_frame:
  assumes "apply_op op w = Some w1"
  shows "next_addr w \<le> next_addr w1 \<and> (\<forall>a < next_addr w. bheap w1 a = bheap w a)"
proof (cases op)
  case (OpSend message)
  with assms show ?thesis by (auto simp: SendMessageWithReply_def Let_def)
next
  case OpGetNetworkStatistics
  with assms show ?thesis
    by (auto simp: GetNetworkStatistics_eq BroadcastReply_ctor_eq BroadcastMessageWithReply_def
        Let_def)
next
  case (OpResolve reply)
  with assms show ?thesis by (auto simp: resolve_frame)
next
  case (OpWait this)
  with assms have "WaitForSignal_Finished this (schedule w) w = Some w1"
    by (auto simp: BroadcastReply_WaitForFinished_def split: option.splits)
  from WaitForSignal_Finished_frame [OF this] show ?thesis by simp
next
  case (OpDeleteLater obj)
  with assms show ?thesis by (auto simp: deleteLater_def)
next
  case OpWorkerJoins
  with assms show ?thesis by auto
qed

lemma run_frame:
  "run ops w = Some w1 \<Longrightarrow>
   next_addr w \<le> next_addr w1 \<and> (\<forall>a < next_addr w. bheap w1 a = bheap w a)"
proof (induction ops arbitrary: w)
  case Nil
  then show ?case by simp
next
  case (Cons op ops)
  from Cons.prems obtain w0 where a: "apply_op op w = Some w0" and r: "run ops w0 = Some w1"
    by (auto split: option.splits)
  from apply_op_frame [OF a] Cons.IH [OF r] show ?case by auto
qed

text \<open>
  The closures of a broadcast reply stay connected to its members, whatever happens in
  the host after the constructor has returned.
\<close>

lemma WaitForSignal_Finished_closures:
  "WaitForSignal_Finished this sched w = Some w1 \<Longrightarrow> closures w1 = closures w"
proof (induction sched arbitrary: w)
  case Nil
  then show ?case by simp
next
  case (Cons reply rest)
  let ?w0 = "resolve reply (w\<lparr>schedule := rest\<rparr>)"
  have f: "closures ?w0 = closures w"
    by (simp add: resolve_frame)
  show ?case
  proof (cases "length (emitted_by this w) < length (emitted_by this ?w0)")
    case True
    with Cons.prems have "w1 = ?w0" by (simp add: Let_def)
    with f show ?thesis by simp
  next
    case False
    with Cons.prems have "WaitForSignal_Finished this rest ?w0 = Some w1"
      by (simp add: Let_def)
    from Cons.IH [OF this] f show ?thesis by simp
  qed
qed

lemma apply_op_connected:
  assumes "apply_op op w = Some w1" and "wf_closures w"
  shows "wf_closures w1 \<and> (\<forall>this < next_addr w. connected this w1 = connected this w)"
proof (cases op)
  case (OpSend message)
  with assms show ?thesis
    by (fastforce simp: SendMessageWithReply_def Let_def wf_closures_def connected_def list_all_iff)
next
  case OpGetNetworkStatistics
  with assms show ?thesis
    by (fastforce simp: GetNetworkStatistics_eq BroadcastReply_ctor_eq BroadcastMessageWithReply_def
        Let_def wf_closures_def connected_def list_all_iff filter_empty_conv)
next
  case (OpResolve reply)
  with assms show ?thesis
    by (auto simp: resolve_frame wf_closures_def connected_def)
next
  case (OpWait this)
  with assms have w: "WaitForSignal_Finished this (schedule w) w = Some w1"
    by (auto simp: BroadcastReply_WaitForFinished_def split: option.splits)
  from WaitForSignal_Finished_frame [OF w] WaitForSignal_Finished_closures [OF w] assms(2)
  show ?thesis by (simp add: wf_closures_def connected_def)
next
  case (OpDeleteLater obj)
  with assms show ?thesis by (auto simp: deleteLater_def wf_closures_def connected_def)
next
  case OpWorkerJoins
  with assms show ?thesis by (auto simp: wf_closures_def connected_def)
qed

lemma run_connected:
  "run ops w = Some w1 \<Longrightarrow> wf_closures w \<Longrightarrow>
   wf_closures w1 \<and> (\<forall>this < next_addr w. connected this w1 = connected this w)"
proof (induction ops arbitrary: w)
  case Nil
  then show ?case by simp
next
  case (Cons op ops)
  from Cons.prems obtain w0 where a: "apply_op op w = Some w0" and r: "run ops w0 = Some w1"
    by (auto split: option.splits)
  from apply_op_connected [OF a Cons.prems(2)] apply_op_frame [OF a] Cons.IH [OF r]
  show ?case by auto
qed

lemma wf_closures_host: "wf_closures (host n res sched cur)"
  by (simp add: wf_closures_def host_def)

lemma BroadcastReply_stays_connected:
  assumes "wf_closures w"
    and "run ops (snd (BroadcastReply_ctor message rs w)) = Some w1"
  shows "connected (fst (BroadcastReply_ctor message rs w)) w1 =
         replies (bheap w1 (fst (BroadcastReply_ctor message rs w)))"
proof -
  let ?c = "BroadcastReply_ctor message rs w"
  have wf: "wf_closures (snd ?c)"
    using assms(1) by (fastforce simp: BroadcastReply_ctor_eq wf_closures_def list_all_iff)
  have lt: "fst ?c < next_addr (snd ?c)"
    by (simp add: BroadcastReply_ctor_eq)
  from assms(1) have c0: "connected (fst ?c) (snd ?c) = rs"
    by (intro BroadcastReply_ctor_connected) (simp add: wf_closures_def list_all_iff)
  from run_connected [OF assms(2) wf] lt have "connected (fst ?c) w1 = rs"
    by (simp add: c0)
  moreover from run_frame [OF assms(2)] lt
  have "bheap w1 (fst ?c) = bheap (snd ?c) (fst ?c)" by simp
  then have "replies (bheap w1 (fst ?c)) = rs" by (simp add: BroadcastReply_ctor_eq)
  ultimately show ?thesis by simp
qed

text \<open>
  C8. Once the constructor of a broadcast reply has returned, nothing that happens in the
  host changes its member list: not the resolution of replies, not a wait, not further
  requests or broadcasts, and not a Worker that joins the pool. After every run that
  returns, the list is the one the constructor was given, in the same order.
\<close>

theorem BroadcastReply_members_fixed:
  "case run ops (snd (BroadcastReply_ctor message rs w)) of
     None \<Rightarrow> True
   | Some w1 \<Rightarrow> replies (bheap w1 (fst (BroadcastReply_ctor message rs w))) = rs"
proof (cases "run ops (snd (BroadcastReply_ctor message rs w))")
  case None
  then show ?thesis by simp
next
  case (Some w1)
  from run_frame [OF Some]
  have "bheap w1 (next_addr w) = bheap (snd (BroadcastReply_ctor message rs w)) (next_addr w)"
    by (simp add: BroadcastReply_ctor_eq)
  with Some show ?thesis by (simp add: BroadcastReply_ctor_eq)
qed

theorem BroadcastReply_members_fixed_witness:
  "map_option (\<lambda>w1. (replies (bheap w1 2), ready_workers w1, emitted_by 2 w1))
     (run late_joiner_run
        (snd (BroadcastReply_ctor NetworkStatisticsRequest [0, 1]
           (snd (BroadcastMessageWithReply NetworkStatisticsRequest
              (host 2 (\<lambda>a. (True, NetworkStatisticsResponse [])) [0] 1)))))) =
   Some ([0, 1], 3, [True])"
proof -
  let ?w = "snd (BroadcastMessageWithReply NetworkStatisticsRequest
              (host 2 (\<lambda>a. (True, NetworkStatisticsResponse [])) [0] 1)) :: string world"
  have a: "fst (BroadcastReply_ctor NetworkStatisticsRequest [0, 1] ?w) = 2"
    by code_simp
  have b: "map_option (\<lambda>w1. (ready_workers w1, emitted_by 2 w1))
     (run late_joiner_run (snd (BroadcastReply_ctor NetworkStatisticsRequest [0, 1] ?w))) =
     Some (3, [True])"
    by code_simp
  note t = BroadcastReply_members_fixed
    [where ops = late_joiner_run and message = NetworkStatisticsRequest and rs = "[0, 1]"
       and w = ?w, unfolded a]
  from t b show ?thesis by (auto split: option.splits)
qed

section \<open>The aggregation of the network statistics\<close>

lemma fst_aggregate_entry:
  "fst (aggregate_entry auth e maps) =
     (fst maps)(auth (url e) \<mapsto> (case fst maps (auth (url e)) of None \<Rightarrow> 1 | Some n \<Rightarrow> n + 1))"
  by (simp add: aggregate_entry_def Let_def split: option.split)

lemma snd_aggregate_entry:
  "snd (aggregate_entry auth e maps) =
     (snd maps)(auth (url e) \<mapsto>
        (case snd maps (auth (url e)) of None \<Rightarrow> bytes_received e
         | Some b \<Rightarrow> b + bytes_received e))"
  by (simp add: aggregate_entry_def Let_def split: option.split)

lemma fold_aggregate_requests:
  "fst (fold (aggregate_entry auth) es maps) h =
     (if entries_with auth h es = [] then fst maps h
      else Some ((case fst maps h of None \<Rightarrow> 0 | Some c \<Rightarrow> c) +
                 of_nat (length (entries_with auth h es))))"
proof (induction es arbitrary: maps)
  case Nil
  show ?case by (simp add: entries_with_def)
next
  case (Cons e es)
  show ?case
    by (simp add: Cons.IH fst_aggregate_entry entries_with_def split: option.split)
qed

lemma fold_aggregate_bytes:
  "snd (fold (aggregate_entry auth) es maps) h =
     (if entries_with auth h es = [] then snd maps h
      else Some ((case snd maps h of None \<Rightarrow> 0 | Some c \<Rightarrow> c) +
                 sum_list (map bytes_received (entries_with auth h es))))"
proof (induction es arbitrary: maps)
  case Nil
  show ?case by (simp add: entries_with_def)
next
  case (Cons e es)
  show ?case
    by (simp add: Cons.IH snd_aggregate_entry entries_with_def add.assoc split: option.split)
qed

lemma unat_sum_list_le:
  "unat (sum_list ws :: 64 word) \<le> sum_list (map unat ws)"
proof (induction ws)
  case Nil
  show ?case by simp
next
  case (Cons a ws)
  have "unat (a + sum_list ws) \<le> unat a + unat (sum_list ws)"
    by (simp add: unat_word_ariths)
  with Cons show ?case by simp
qed

lemma unat_sum_list_exact:
  "sum_list (map unat ws) < 2 ^ 64 \<Longrightarrow>
   unat (sum_list ws :: 64 word) = sum_list (map unat ws)"
proof (induction ws)
  case Nil
  show ?case by simp
next
  case (Cons a ws)
  from Cons.prems have "sum_list (map unat ws) < 2 ^ 64" by simp
  then have ih: "unat (sum_list ws) = sum_list (map unat ws)" by (rule Cons.IH)
  from Cons.prems have "unat a + unat (sum_list ws) < 2 ^ 64" by (simp add: ih)
  then have "unat (a + sum_list ws) = unat a + unat (sum_list ws)"
    by (simp add: unat_word_ariths)
  then show ?case by (simp add: ih)
qed

lemma sint_small:
  assumes "unat (w :: 'a::len word) < 2 ^ (LENGTH('a) - 1)"
  shows "sint w = int (unat w)"
proof -
  from assms have "int (unat w) < 2 ^ (LENGTH('a) - 1)"
    by (metis of_nat_less_iff of_nat_numeral of_nat_power)
  then have "uint w < 2 ^ (LENGTH('a) - 1)" by simp
  moreover have "- (2 ^ (LENGTH('a) - 1)) \<le> uint w"
    by (rule order_trans [of _ 0]) simp_all
  ultimately have "signed_take_bit (LENGTH('a) - 1) (uint w) = uint w"
    by (rule signed_take_bit_int_eq_self [rotated])
  then show ?thesis by (simp add: sint_uint)
qed

lemma sint_of_nat_exact:
  assumes "n < 2 ^ 31"
  shows "sint (of_nat n :: 32 word) = int n"
proof -
  from assms have "n < 2 ^ 32" by simp
  then have u: "unat (of_nat n :: 32 word) = n" by (simp add: unat_of_nat)
  have "sint (of_nat n :: 32 word) = int (unat (of_nat n :: 32 word))"
    using assms by (intro sint_small) (simp add: u)
  then show ?thesis by (simp only: u)
qed

lemma sint_sum_list_exact:
  assumes "sum_list (map unat ws) < 2 ^ 63"
  shows "sint (sum_list ws :: 64 word) = int (sum_list (map unat ws))"
proof -
  from assms have "sum_list (map unat ws) < 2 ^ 64" by simp
  then have u: "unat (sum_list ws) = sum_list (map unat ws)" by (rule unat_sum_list_exact)
  have "sint (sum_list ws) = int (unat (sum_list ws))"
    using assms by (intro sint_small) (simp add: u)
  then show ?thesis by (simp only: u)
qed

text \<open>
  The aggregation loop, on any list of entries: counts and sums per authority, in the
  counters' types, and as exact integers while these fit.
\<close>

lemma aggregate_stats_per_authority:
  "fst (aggregate_stats auth es) h =
     (if entries_with auth h es = [] then None
      else Some (of_nat (length (entries_with auth h es)))) \<and>
   snd (aggregate_stats auth es) h =
     (if entries_with auth h es = [] then None
      else Some (sum_list (map bytes_received (entries_with auth h es)))) \<and>
   (entries_with auth h es \<noteq> [] \<and> length (entries_with auth h es) < 2 ^ 31 \<longrightarrow>
      map_option sint (fst (aggregate_stats auth es) h) =
        Some (int (length (entries_with auth h es)))) \<and>
   (entries_with auth h es \<noteq> [] \<and>
    sum_list (map unat (map bytes_received (entries_with auth h es))) < 2 ^ 63 \<longrightarrow>
      map_option sint (snd (aggregate_stats auth es) h) =
        Some (int (sum_list (map unat (map bytes_received (entries_with auth h es))))))"
  by (simp add: aggregate_stats_def fold_aggregate_requests fold_aggregate_bytes
      sint_of_nat_exact sint_sum_list_exact)

lemma aggregate_stats_example:
  "map (\<lambda>h. map_option sint (fst (aggregate_stats url_authority example_entries) h))
       [''a.com'', ''b.com'', ''c.com''] = [Some 2, Some 1, None] \<and>
   map (\<lambda>h. map_option sint (snd (aggregate_stats url_authority example_entries) h))
       [''a.com'', ''b.com'', ''c.com''] = [Some 150, Some 10, None]"
proof -
  have a: "entries_with url_authority ''a.com'' example_entries =
      [\<lparr>url = ''http://a.com/x'', bytes_received = 100\<rparr>,
       \<lparr>url = ''http://a.com/y'', bytes_received = 50\<rparr>]"
    by code_simp
  have b: "entries_with url_authority ''b.com'' example_entries =
      [\<lparr>url = ''http://b.com/z'', bytes_received = 10\<rparr>]"
    by code_simp
  have c: "entries_with url_authority ''c.com'' example_entries = []"
    by code_simp
  have ta: "map_option sint (fst (aggregate_stats url_authority example_entries) ''a.com'') = Some 2
      \<and> map_option sint (snd (aggregate_stats url_authority example_entries) ''a.com'') = Some 150"
    using aggregate_stats_per_authority
      [where auth = url_authority and es = example_entries and h = "''a.com''", unfolded a]
    by simp
  have tb: "map_option sint (fst (aggregate_stats url_authority example_entries) ''b.com'') = Some 1
      \<and> map_option sint (snd (aggregate_stats url_authority example_entries) ''b.com'') = Some 10"
    using aggregate_stats_per_authority
      [where auth = url_authority and es = example_entries and h = "''b.com''", unfolded b]
    by simp
  have tc: "fst (aggregate_stats url_authority example_entries) ''c.com'' = None
      \<and> snd (aggregate_stats url_authority example_entries) ''c.com'' = None"
    using aggregate_stats_per_authority
      [where auth = url_authority and es = example_entries and h = "''c.com''", unfolded c]
    by simp
  from ta tb tc show ?thesis by simp
qed

text \<open>
  The blocking query logs these two maps, computed from the responses of the members in
  the order of the member list.
\<close>

lemma WaitForSignal_Finished_logged:
  "WaitForSignal_Finished this sched w = Some w1 \<Longrightarrow> logged w1 = logged w"
proof (induction sched arbitrary: w)
  case Nil
  then show ?case by simp
next
  case (Cons reply rest)
  let ?w0 = "resolve reply (w\<lparr>schedule := rest\<rparr>)"
  have f: "logged ?w0 = logged w"
    by (simp add: resolve_frame)
  show ?case
  proof (cases "length (emitted_by this w) < length (emitted_by this ?w0)")
    case True
    with Cons.prems have "w1 = ?w0" by (simp add: Let_def)
    with f show ?thesis by simp
  next
    case False
    with Cons.prems have "WaitForSignal_Finished this rest ?w0 = Some w1"
      by (simp add: Let_def)
    from Cons.IH [OF this] f show ?thesis by simp
  qed
qed

lemma fold_append_concat:
  "fold (\<lambda>r response. response @ f r) rs acc = acc @ concat (map f rs)"
  by (induction rs arbitrary: acc) simp_all

lemma merge_responses_concat:
  "merge_responses reply w =
     concat (map (\<lambda>r. network_statistics_response (reply_message (heap w r)))
                 (replies (bheap w reply)))"
  by (simp add: merge_responses_def fold_append_concat)

lemma GetNetworkStatisticsBlocking_logs_aggregate:
  assumes "GetNetworkStatisticsBlocking x w = Some w1"
  shows "logged w1 =
           logged w @
           [(Debug, RequestsByHost (fst (aggregate_stats (authority x)
               (merge_responses (fst (GetNetworkStatistics w)) w1)))),
            (Debug, BytesReceivedByHost (snd (aggregate_stats (authority x)
               (merge_responses (fst (GetNetworkStatistics w)) w1))))]"
proof -
  let ?g = "GetNetworkStatistics w"
  from assms obtain ok w2 where
    wait: "BroadcastReply_WaitForFinished (fst ?g) (snd ?g) = Some (ok, w2)"
    by (auto simp: GetNetworkStatisticsBlocking_def case_prod_beta split: option.splits)
  then have sig: "WaitForSignal_Finished (fst ?g) (schedule (snd ?g)) (snd ?g) = Some w2"
    by (auto simp: BroadcastReply_WaitForFinished_def split: option.splits)
  have l0: "logged (snd ?g) = logged w"
    by (simp add: GetNetworkStatistics_eq BroadcastReply_ctor_eq BroadcastMessageWithReply_def
        Let_def)
  have l2: "logged w2 = logged w"
    using WaitForSignal_Finished_logged [OF sig] l0 by simp
  have w1: "w1 = qLog Debug (BytesReceivedByHost (snd (aggregate_stats (authority x)
                (merge_responses (fst ?g) (deleteLater (fst ?g) w2)))))
              (qLog Debug (RequestsByHost (fst (aggregate_stats (authority x)
                (merge_responses (fst ?g) (deleteLater (fst ?g) w2)))))
                (deleteLater (fst ?g) w2))"
    using assms wait by (simp add: GetNetworkStatisticsBlocking_def case_prod_beta Let_def)
  have m: "merge_responses (fst ?g) w1 = merge_responses (fst ?g) (deleteLater (fst ?g) w2)"
    by (subst w1) (simp add: merge_responses_def qLog_def deleteLater_def)
  show ?thesis
    unfolding m by (subst w1) (simp add: qLog_def deleteLater_def l2)
qed

lemma GetNetworkStatisticsBlocking_None:
  "GetNetworkStatisticsBlocking x w = None \<longleftrightarrow>
   BroadcastReply_WaitForFinished (fst (GetNetworkStatistics w)) (snd (GetNetworkStatistics w)) = None"
  by (simp add: GetNetworkStatisticsBlocking_def case_prod_beta Let_def split: option.split)


text \<open>
  C2. \<^verbatim>\<open>GetNetworkStatisticsBlocking\<close> returns exactly if the wait on its broadcast reply
  does. When it returns it has logged two maps, the requests by host and the bytes
  received by host, computed from the entries of the members' responses: a host has an
  entry exactly if some URL among them has that authority; the request count is then the
  number of entries with that authority and the byte count the sum of their
  \<^verbatim>\<open>bytes_received\<close>, as values of the counters' types \<^verbatim>\<open>int\<close> and \<^verbatim>\<open>qint64\<close>. Read as
  integers they are the exact number and the exact sum as long as these fit: fewer than
  \<open>2^31\<close> entries, a sum below \<open>2^63\<close>.
\<close>

theorem GetNetworkStatisticsBlocking_logs_counts_and_sums:
  "case GetNetworkStatisticsBlocking x w of
     None \<Rightarrow>
       BroadcastReply_WaitForFinished (fst (GetNetworkStatistics w))
         (snd (GetNetworkStatistics w)) = None
   | Some w1 \<Rightarrow>
       (\<exists>requests bytes.
          logged w1 =
            logged w @ [(Debug, RequestsByHost requests), (Debug, BytesReceivedByHost bytes)] \<and>
          (\<forall>h. let hs = entries_with (authority x) h
                           (member_entries (fst (GetNetworkStatistics w)) w1)
               in requests h = (if hs = [] then None else Some (of_nat (length hs))) \<and>
                  bytes h = (if hs = [] then None
                             else Some (sum_list (map bytes_received hs))) \<and>
                  (hs \<noteq> [] \<and> length hs < 2 ^ 31 \<longrightarrow>
                     map_option sint (requests h) = Some (int (length hs))) \<and>
                  (hs \<noteq> [] \<and> sum_list (map unat (map bytes_received hs)) < 2 ^ 63 \<longrightarrow>
                     map_option sint (bytes h) =
                       Some (int (sum_list (map unat (map bytes_received hs)))))))"
proof (cases "GetNetworkStatisticsBlocking x w")
  case None
  then have "BroadcastReply_WaitForFinished (fst (GetNetworkStatistics w))
      (snd (GetNetworkStatistics w)) = None"
    by (simp add: GetNetworkStatisticsBlocking_None)
  with None show ?thesis by (simp only: option.case)
next
  case (Some w1)
  let ?es = "member_entries (fst (GetNetworkStatistics w)) w1"
  have m: "merge_responses (fst (GetNetworkStatistics w)) w1 = ?es"
    by (simp add: merge_responses_concat member_entries_def)
  have l: "logged w1 =
      logged w @ [(Debug, RequestsByHost (fst (aggregate_stats (authority x) ?es))),
                  (Debug, BytesReceivedByHost (snd (aggregate_stats (authority x) ?es)))]"
    using GetNetworkStatisticsBlocking_logs_aggregate [OF Some] by (simp only: m)
  have p: "\<forall>h. let hs = entries_with (authority x) h ?es
      in fst (aggregate_stats (authority x) ?es) h =
           (if hs = [] then None else Some (of_nat (length hs))) \<and>
         snd (aggregate_stats (authority x) ?es) h =
           (if hs = [] then None else Some (sum_list (map bytes_received hs))) \<and>
         (hs \<noteq> [] \<and> length hs < 2 ^ 31 \<longrightarrow>
            map_option sint (fst (aggregate_stats (authority x) ?es) h) =
              Some (int (length hs))) \<and>
         (hs \<noteq> [] \<and> sum_list (map unat (map bytes_received hs)) < 2 ^ 63 \<longrightarrow>
            map_option sint (snd (aggregate_stats (authority x) ?es) h) =
              Some (int (sum_list (map unat (map bytes_received hs)))))"
    unfolding Let_def by (intro allI) (rule aggregate_stats_per_authority)
  from l p have "\<exists>requests bytes.
      logged w1 =
        logged w @ [(Debug, RequestsByHost requests), (Debug, BytesReceivedByHost bytes)] \<and>
      (\<forall>h. let hs = entries_with (authority x) h ?es
           in requests h = (if hs = [] then None else Some (of_nat (length hs))) \<and>
              bytes h = (if hs = [] then None
                         else Some (sum_list (map bytes_received hs))) \<and>
              (hs \<noteq> [] \<and> length hs < 2 ^ 31 \<longrightarrow>
                 map_option sint (requests h) = Some (int (length hs))) \<and>
              (hs \<noteq> [] \<and> sum_list (map unat (map bytes_received hs)) < 2 ^ 63 \<longrightarrow>
                 map_option sint (bytes h) =
                   Some (int (sum_list (map unat (map bytes_received hs))))))"
    by (intro exI conjI) (rule l, rule p)
  with Some show ?thesis by (simp only: option.case)
qed

theorem GetNetworkStatisticsBlocking_logs_counts_and_sums_witness:
  "map (\<lambda>h. map_option sint (logged_requests (GetNetworkStatisticsBlocking plain stats_host) h))
       [''a.com'', ''b.com'', ''c.com''] = [Some 2, Some 1, None] \<and>
   map (\<lambda>h. map_option sint (logged_bytes (GetNetworkStatisticsBlocking plain stats_host) h))
       [''a.com'', ''b.com'', ''c.com''] = [Some 150, Some 10, None]"
proof -
  let ?r = "GetNetworkStatisticsBlocking plain stats_host"
  have ret: "map_option (member_entries 2) ?r = Some example_entries"
    by code_simp
  have bc: "fst (GetNetworkStatistics stats_host) = 2"
    by code_simp
  have l0: "logged stats_host = []"
    by (simp add: stats_host_def host_def)
  have au: "authority plain = url_authority"
    by (simp add: plain_def)
  from ret obtain w1 where s: "?r = Some w1" and es: "member_entries 2 w1 = example_entries"
    by auto
  note t = GetNetworkStatisticsBlocking_logs_counts_and_sums
    [where x = plain and w = stats_host, unfolded s option.case bc es l0 au append_Nil]
  from t obtain requests bytes where
    lg: "logged w1 = [(Debug, RequestsByHost requests), (Debug, BytesReceivedByHost bytes)]"
    and per0: "\<forall>h. let hs = entries_with url_authority h example_entries
        in requests h = (if hs = [] then None else Some (of_nat (length hs))) \<and>
           bytes h = (if hs = [] then None else Some (sum_list (map bytes_received hs))) \<and>
           (hs \<noteq> [] \<and> length hs < 2 ^ 31 \<longrightarrow>
              map_option sint (requests h) = Some (int (length hs))) \<and>
           (hs \<noteq> [] \<and> sum_list (map unat (map bytes_received hs)) < 2 ^ 63 \<longrightarrow>
              map_option sint (bytes h) =
                Some (int (sum_list (map unat (map bytes_received hs)))))"
    by (elim exE conjE)
  from per0 have per: "let hs = entries_with url_authority h example_entries
        in requests h = (if hs = [] then None else Some (of_nat (length hs))) \<and>
           bytes h = (if hs = [] then None else Some (sum_list (map bytes_received hs))) \<and>
           (hs \<noteq> [] \<and> length hs < 2 ^ 31 \<longrightarrow>
              map_option sint (requests h) = Some (int (length hs))) \<and>
           (hs \<noteq> [] \<and> sum_list (map unat (map bytes_received hs)) < 2 ^ 63 \<longrightarrow>
              map_option sint (bytes h) =
                Some (int (sum_list (map unat (map bytes_received hs)))))" for h
    by (rule spec)
  have rq: "logged_requests ?r h = requests h" and bt: "logged_bytes ?r h = bytes h" for h
    by (simp_all add: logged_requests_def logged_bytes_def s lg)
  have a: "entries_with url_authority ''a.com'' example_entries =
      [\<lparr>url = ''http://a.com/x'', bytes_received = 100\<rparr>,
       \<lparr>url = ''http://a.com/y'', bytes_received = 50\<rparr>]"
    by code_simp
  have b: "entries_with url_authority ''b.com'' example_entries =
      [\<lparr>url = ''http://b.com/z'', bytes_received = 10\<rparr>]"
    by code_simp
  have c: "entries_with url_authority ''c.com'' example_entries = []"
    by code_simp
  have ta: "map_option sint (requests ''a.com'') = Some 2 \<and>
      map_option sint (bytes ''a.com'') = Some 150"
    using per [of "''a.com''"] unfolding a Let_def by simp
  have tb: "map_option sint (requests ''b.com'') = Some 1 \<and>
      map_option sint (bytes ''b.com'') = Some 10"
    using per [of "''b.com''"] unfolding b Let_def by simp
  have tc: "requests ''c.com'' = None \<and> bytes ''c.com'' = None"
    using per [of "''c.com''"] unfolding c Let_def by simp
  from ta tb tc show ?thesis by (simp add: rq bt)
qed

section \<open>The client\<close>

text \<open>
  C6. \<^verbatim>\<open>GetNetworkStatistics\<close> hands a network-statistics request, which has no argument,
  to the pool's broadcast operation and returns a broadcast reply over the replies that
  the broadcast returned, one per Ready worker. Each of the seven other asynchronous
  forms hands one request of its own kind to the pool's single-worker send operation.
\<close>

theorem statistics_broadcast_others_point_to_point:
  "dispatched (snd (GetNetworkStatistics w)) =
     dispatched w @ [(BroadcastMessage, NetworkStatisticsRequest,
                      replies (bheap (snd (GetNetworkStatistics w)) (fst (GetNetworkStatistics w))))] \<and>
   replies (bheap (snd (GetNetworkStatistics w)) (fst (GetNetworkStatistics w))) =
     fst (BroadcastMessageWithReply NetworkStatisticsRequest w) \<and>
   length (replies (bheap (snd (GetNetworkStatistics w)) (fst (GetNetworkStatistics w)))) =
     ready_workers w \<and>
   dispatched (snd (ReadFile filename w)) =
     dispatched w @ [(SendMessage, ReadFileRequest filename, [fst (ReadFile filename w)])] \<and>
   dispatched (snd (SaveFile x filename metadata w)) =
     dispatched w @ [(SendMessage, SaveFileRequest filename (ToProtobuf x metadata),
                      [fst (SaveFile x filename metadata w)])] \<and>
   dispatched (snd (UpdateSongStatistics x metadata w)) =
     dispatched w @ [(SendMessage,
                      SaveSongStatisticsToFileRequest (toLocalFile x metadata) (ToProtobuf x metadata),
                      [fst (UpdateSongStatistics x metadata w)])] \<and>
   dispatched (snd (UpdateSongRating x metadata w)) =
     dispatched w @ [(SendMessage,
                      SaveSongRatingToFileRequest (toLocalFile x metadata) (ToProtobuf x metadata),
                      [fst (UpdateSongRating x metadata w)])] \<and>
   dispatched (snd (IsMediaFile filename w)) =
     dispatched w @ [(SendMessage, IsMediaFileRequest filename, [fst (IsMediaFile filename w)])] \<and>
   dispatched (snd (LoadEmbeddedArt filename w)) =
     dispatched w @ [(SendMessage, LoadEmbeddedArtRequest filename,
                      [fst (LoadEmbeddedArt filename w)])] \<and>
   dispatched (snd (ReadCloudFile download_url title sz mime_type authorisation_header w)) =
     dispatched w @ [(SendMessage,
                      ReadCloudFileRequest download_url title sz mime_type authorisation_header,
                      [fst (ReadCloudFile download_url title sz mime_type authorisation_header w)])]"
  by (simp add: GetNetworkStatistics_eq BroadcastReply_ctor_eq BroadcastMessageWithReply_def
      ReadFile_def SaveFile_def UpdateSongStatistics_def UpdateSongRating_def IsMediaFile_def
      LoadEmbeddedArt_def ReadCloudFile_def SendMessageWithReply_def Let_def)

text \<open>
  C7. The slot \<^verbatim>\<open>WorkerFailedToStart\<close> adds one line at level Error that names the
  executable \<^verbatim>\<open>clementine-tagreader\<close>, and changes nothing else in the host. The
  constructor gives the pool that executable name, and after it the pool's signal
  \<^verbatim>\<open>WorkerFailedToStart()\<close> runs just this slot.
\<close>

theorem WorkerFailedToStart_only_logs:
  "WorkerFailedToStart w =
     w\<lparr>logged := logged w @
        [(Error, Words [''The'', ''clementine-tagreader'', ''executable was not found'',
                        ''in the current directory or on the PATH.  Clementine will'',
                        ''not be able to read music file tags without it.''])]\<rparr> \<and>
   executable_name (TagReaderClient_ctor n w) = ''clementine-tagreader'' \<and>
   emit_signal SigWorkerFailedToStart (TagReaderClient_ctor n (w\<lparr>connections := []\<rparr>)) =
     WorkerFailedToStart (TagReaderClient_ctor n (w\<lparr>connections := []\<rparr>))"
  by (simp add: WorkerFailedToStart_def qLog_def kWorkerExecutableName_def
      TagReaderClient_ctor_def emit_signal_def)

section \<open>The blocking forms\<close>

lemma ReadFileBlocking_blocking_form:
  "ReadFileBlocking x filename song w =
     blocking_form (ReadFile filename)
       (\<lambda>message. InitFromProtobuf x
          (read_file_response_metadata (default_metadata x) message) song) song w"
  by (simp add: ReadFileBlocking_def blocking_form_def Let_def split: prod.split)

lemma SaveFileBlocking_blocking_form:
  "SaveFileBlocking x filename metadata w =
     blocking_form (SaveFile x filename metadata) save_file_response_success False w"
  by (simp add: SaveFileBlocking_def blocking_form_def Let_def split: prod.split)

lemma UpdateSongStatisticsBlocking_blocking_form:
  "UpdateSongStatisticsBlocking x metadata w =
     blocking_form (UpdateSongStatistics x metadata)
       save_song_statistics_to_file_response_success False w"
  by (simp add: UpdateSongStatisticsBlocking_def blocking_form_def Let_def split: prod.split)

lemma UpdateSongRatingBlocking_blocking_form:
  "UpdateSongRatingBlocking x metadata w =
     blocking_form (UpdateSongRating x metadata)
       save_song_rating_to_file_response_success False w"
  by (simp add: UpdateSongRatingBlocking_def blocking_form_def Let_def split: prod.split)

lemma IsMediaFileBlocking_blocking_form:
  "IsMediaFileBlocking filename w =
     blocking_form (IsMediaFile filename) is_media_file_response_success False w"
  by (simp add: IsMediaFileBlocking_def blocking_form_def Let_def split: prod.split)

lemma LoadEmbeddedArtBlocking_blocking_form:
  "LoadEmbeddedArtBlocking x filename w =
     blocking_form (LoadEmbeddedArt filename)
       (\<lambda>message. loadFromData x (load_embedded_art_response_data message)) None w"
  by (simp add: LoadEmbeddedArtBlocking_def blocking_form_def Let_def split: prod.split)

lemmas blocking_forms =
  ReadFileBlocking_blocking_form SaveFileBlocking_blocking_form
  UpdateSongStatisticsBlocking_blocking_form UpdateSongRatingBlocking_blocking_form
  IsMediaFileBlocking_blocking_form LoadEmbeddedArtBlocking_blocking_form

lemma blocking_form_asserts:
  "current_thread w = thread w \<Longrightarrow> blocking_form async extract dflt w = Inl AssertionFailed"
  by (simp add: blocking_form_def)

lemma blocking_form_result:
  "current_thread w \<noteq> thread w \<Longrightarrow>
   \<exists>w'. blocking_form async extract dflt w =
     Inr (if wait_reports async w then extract (awaited_message async w) else dflt, w')"
  by (simp add: blocking_form_def wait_reports_def awaited_message_def split: prod.split)

lemma blocking_form_default:
  assumes "current_thread w \<noteq> thread w" and "\<not> wait_reports async w"
  shows "\<exists>w'. blocking_form async get dflt w = Inr (dflt, w')"
  using blocking_form_result [OF assms(1), of async get dflt] assms(2) by simp

text \<open>
  C4, amended. Each of the six blocking forms of a point-to-point request asserts that it
  is not called from the client's own thread, and does so before it sends or waits: called
  from that thread it fails the assertion and nothing else happens.
  \<^verbatim>\<open>GetNetworkStatisticsBlocking\<close> makes no such assertion; called from the client's own
  thread it sends, waits and returns.
\<close>

theorem blocking_wrappers_assert_not_own_thread:
  assumes "current_thread w = thread w"
  shows "ReadFileBlocking x filename song w = Inl AssertionFailed \<and>
         SaveFileBlocking x filename metadata w = Inl AssertionFailed \<and>
         UpdateSongStatisticsBlocking x metadata w = Inl AssertionFailed \<and>
         UpdateSongRatingBlocking x metadata w = Inl AssertionFailed \<and>
         IsMediaFileBlocking filename w = Inl AssertionFailed \<and>
         LoadEmbeddedArtBlocking x filename w = Inl AssertionFailed"
  using assms by (simp add: blocking_forms blocking_form_asserts)

theorem blocking_wrappers_assert_not_own_thread_witness:
  "current_thread (answering True Empty 0) = thread (answering True Empty 0) \<and>
   ReadFileBlocking plain ''f'' ''s'' (answering True Empty 0) = Inl AssertionFailed \<and>
   SaveFileBlocking plain ''f'' ''s'' (answering True Empty 0) = Inl AssertionFailed \<and>
   UpdateSongStatisticsBlocking plain ''s'' (answering True Empty 0) = Inl AssertionFailed \<and>
   UpdateSongRatingBlocking plain ''s'' (answering True Empty 0) = Inl AssertionFailed \<and>
   IsMediaFileBlocking ''f'' (answering True Empty 0) = Inl AssertionFailed \<and>
   LoadEmbeddedArtBlocking plain ''f'' (answering True Empty 0) = Inl AssertionFailed"
proof -
  have h: "current_thread (answering True Empty 0) = thread (answering True Empty 0)"
    by (simp add: answering_def host_def)
  from blocking_wrappers_assert_not_own_thread [OF h, of plain "''f''" "''s''" "''s''"] h
  show ?thesis by simp
qed

theorem GetNetworkStatisticsBlocking_in_own_thread_counterexample:
  "current_thread (answering True (NetworkStatisticsResponse []) 0) =
     thread (answering True (NetworkStatisticsResponse []) 0) \<and>
   map_option deleted
     (GetNetworkStatisticsBlocking plain (answering True (NetworkStatisticsResponse []) 0)) =
     Some [1] \<and>
   IsMediaFileBlocking ''f'' (answering True (NetworkStatisticsResponse []) 0) =
     Inl AssertionFailed"
proof -
  have a: "current_thread (answering True (NetworkStatisticsResponse []) 0) =
     thread (answering True (NetworkStatisticsResponse []) 0)"
    by (simp add: answering_def host_def)
  have b: "map_option deleted
     (GetNetworkStatisticsBlocking plain (answering True (NetworkStatisticsResponse []) 0)) =
     Some [1]"
    by code_simp
  have c: "IsMediaFileBlocking ''f'' (answering True (NetworkStatisticsResponse []) 0) =
     Inl AssertionFailed"
    by (simp add: IsMediaFileBlocking_def a)
  from a b c show ?thesis by simp
qed



text \<open>
  C9. When the assertion holds and the wait reports that the reply did not finish
  successfully, \<^verbatim>\<open>SaveFileBlocking\<close>, \<^verbatim>\<open>UpdateSongStatisticsBlocking\<close>,
  \<^verbatim>\<open>UpdateSongRatingBlocking\<close> and \<^verbatim>\<open>IsMediaFileBlocking\<close> return \<open>False\<close> and
  \<^verbatim>\<open>LoadEmbeddedArtBlocking\<close> returns the null image; they return normally.
\<close>

theorem failed_wait_gives_default:
  assumes "current_thread w \<noteq> thread w"
  shows "(\<not> wait_reports (SaveFile x filename metadata) w \<longrightarrow>
            (\<exists>w'. SaveFileBlocking x filename metadata w = Inr (False, w'))) \<and>
         (\<not> wait_reports (UpdateSongStatistics x metadata) w \<longrightarrow>
            (\<exists>w'. UpdateSongStatisticsBlocking x metadata w = Inr (False, w'))) \<and>
         (\<not> wait_reports (UpdateSongRating x metadata) w \<longrightarrow>
            (\<exists>w'. UpdateSongRatingBlocking x metadata w = Inr (False, w'))) \<and>
         (\<not> wait_reports (IsMediaFile filename) w \<longrightarrow>
            (\<exists>w'. IsMediaFileBlocking filename w = Inr (False, w'))) \<and>
         (\<not> wait_reports (LoadEmbeddedArt filename) w \<longrightarrow>
            (\<exists>w'. LoadEmbeddedArtBlocking x filename w = Inr (None, w')))"
  by (simp only: blocking_forms) (intro conjI impI blocking_form_default [OF assms])

theorem failed_wait_gives_default_witness:
  "current_thread (answering False (SaveFileResponse True) 1) \<noteq>
     thread (answering False (SaveFileResponse True) 1) \<and>
   \<not> wait_reports (SaveFile plain ''f'' ''s'') (answering False (SaveFileResponse True) 1) \<and>
   \<not> wait_reports (LoadEmbeddedArt ''f'') (answering False (SaveFileResponse True) 1) \<and>
   map_sum id fst (SaveFileBlocking plain ''f'' ''s'' (answering False (SaveFileResponse True) 1)) =
     Inr False \<and>
   map_sum id fst (LoadEmbeddedArtBlocking plain ''f'' (answering False (SaveFileResponse True) 1)) =
     Inr None"
proof -
  let ?w = "answering False (SaveFileResponse True) 1"
  have a: "current_thread ?w \<noteq> thread ?w" by (simp add: answering_def host_def)
  have b: "\<not> wait_reports (SaveFile plain ''f'' ''s'') ?w" by code_simp
  have c: "\<not> wait_reports (LoadEmbeddedArt ''f'') ?w" by code_simp
  note t = failed_wait_gives_default
    [OF a, where x = plain and filename = "''f''" and metadata = "''s''"]
  from t b obtain w1 where "SaveFileBlocking plain ''f'' ''s'' ?w = Inr (False, w1)"
    by blast
  then have s: "map_sum id fst (SaveFileBlocking plain ''f'' ''s'' ?w) = Inr False"
    by simp
  from t c obtain w2 where "LoadEmbeddedArtBlocking plain ''f'' ?w = Inr (None, w2)"
    by blast
  then have l: "map_sum id fst (LoadEmbeddedArtBlocking plain ''f'' ?w) = Inr None"
    by simp
  from a b c s l show ?thesis by simp
qed

text \<open>
  C10. When the wait reports failure, \<^verbatim>\<open>ReadFileBlocking\<close> leaves the caller's song as
  it was; the song is initialised from the metadata of the read-file response only when
  the wait reports success.
\<close>

theorem ReadFileBlocking_song_unchanged_on_failure:
  assumes "current_thread w \<noteq> thread w"
  shows "(\<not> wait_reports (ReadFile filename) w \<longrightarrow>
            (\<exists>w'. ReadFileBlocking x filename song w = Inr (song, w'))) \<and>
         (wait_reports (ReadFile filename) w \<longrightarrow>
            (\<exists>w'. ReadFileBlocking x filename song w =
               Inr (InitFromProtobuf x
                      (read_file_response_metadata (default_metadata x)
                         (awaited_message (ReadFile filename) w)) song, w')))"
  using blocking_form_result [OF assms, of "ReadFile filename"
      "\<lambda>message. InitFromProtobuf x
          (read_file_response_metadata (default_metadata x) message) song" song]
  by (auto simp add: ReadFileBlocking_blocking_form)

theorem ReadFileBlocking_song_unchanged_on_failure_witness:
  "current_thread (answering False (ReadFileResponse ''new'') 1) \<noteq>
     thread (answering False (ReadFileResponse ''new'') 1) \<and>
   \<not> wait_reports (ReadFile ''f'') (answering False (ReadFileResponse ''new'') 1) \<and>
   map_sum id fst (ReadFileBlocking plain ''f'' ''old'' (answering False (ReadFileResponse ''new'') 1)) =
     Inr ''old'' \<and>
   map_sum id fst (ReadFileBlocking plain ''f'' ''old'' (answering True (ReadFileResponse ''new'') 1)) =
     Inr ''new''"
proof -
  let ?w = "answering False (ReadFileResponse ''new'') 1"
  have a: "current_thread ?w \<noteq> thread ?w" by (simp add: answering_def host_def)
  have b: "\<not> wait_reports (ReadFile ''f'') ?w" by code_simp
  have c: "map_sum id fst (ReadFileBlocking plain ''f'' ''old''
      (answering True (ReadFileResponse ''new'') 1)) = Inr ''new''"
    by code_simp
  note t = ReadFileBlocking_song_unchanged_on_failure
    [OF a, where x = plain and filename = "''f''" and song = "''old''"]
  from t b obtain w1 where "ReadFileBlocking plain ''f'' ''old'' ?w = Inr (''old'', w1)"
    by blast
  then have s: "map_sum id fst (ReadFileBlocking plain ''f'' ''old'' ?w) = Inr ''old''"
    by simp
  from a b c s show ?thesis by simp
qed

end
